theory Spec2Isabelle
  imports Complex_Main "HOL-Library.Multiset" "HOL-Library.List_Lexorder" "HOL-Library.Char_ord"
begin

section \<open>Python values and exceptions\<close>

text \<open>
  The sources are Python. The model follows Python 3: a comparison between a number and a
  string raises TypeError, and a negative float raised to a fractional power is a complex
  number. Floats are modelled by exact numbers (\<open>rat\<close>, \<open>real\<close>): rounding and the overflow
  of the float range are outside the model. An exception is the \<open>Inl\<close> side of a sum.
\<close>

datatype py_error =
  IndexError | KeyError | ValueError | TypeError | ZeroDivisionError | UnboundLocalError

definition bind_err :: "py_error + 'a \<Rightarrow> ('a \<Rightarrow> py_error + 'b) \<Rightarrow> py_error + 'b" where
  "bind_err m f = (case m of Inl e \<Rightarrow> Inl e | Inr x \<Rightarrow> f x)"

text \<open>\<open>s[n]\<close> for a string and an index that is not negative.\<close>

definition str_get :: "string \<Rightarrow> nat \<Rightarrow> py_error + char" where
  "str_get s n = (if n < length s then Inr (s ! n) else Inl IndexError)"

text \<open>\<open>d[k]\<close> for a dictionary.\<close>

definition dict_get :: "('k \<rightharpoonup> 'v) \<Rightarrow> 'k \<Rightarrow> py_error + 'v" where
  "dict_get d k = (case d k of None \<Rightarrow> Inl KeyError | Some v \<Rightarrow> Inr v)"

text \<open>\<open>xs[i] = v\<close> for a list: a negative index counts from the end.\<close>

definition list_set :: "'a list \<Rightarrow> int \<Rightarrow> 'a \<Rightarrow> py_error + 'a list" where
  "list_set xs i v =
     (let n = int (length xs); j = (if i < 0 then n + i else i)
      in if 0 \<le> j \<and> j < n then Inr (xs[nat j := v]) else Inl IndexError)"

section \<open>site\_specific\_rates.py\<close>

subsection \<open>The transcript object\<close>

text \<open>
  The class of the transcript (gene) objects is not among the sources. The methods that
  the code calls are the fields of a record; each is a parameter of the model.
  \<open>convert_chr_pos_to_cds_positions\<close> raises for a position outside the CDS exons
  (\<open>check_denovos_in_gene\<close> in clustering.py catches its ValueError); the other methods
  are taken to return.
\<close>

record transcript =
  get_cds_start :: int
  get_cds_end :: int
  in_coding_region :: "int \<Rightarrow> bool"
  find_closest_exon :: "int \<Rightarrow> int \<times> int"
  chrom_pos_to_cds :: "int \<Rightarrow> int"
  get_codon_number_for_cds_position :: "int \<Rightarrow> int"
  get_position_within_codon :: "int \<Rightarrow> int"
  get_codon_sequence :: "int \<Rightarrow> string"
  translate :: "string \<Rightarrow> char"
  get_trinucleotide :: "int \<Rightarrow> string"
  reverse_complement :: "string \<Rightarrow> string"
  get_strand :: string
  convert_chr_pos_to_cds_positions :: "int \<Rightarrow> py_error + int"

subsection \<open>Module functions\<close>

text \<open>The dictionary that \<open>get_codon_info\<close> returns; \<open>None\<close> is Python's None.\<close>

record codon_info =
  cds_pos :: int
  codon_seq :: "string option"
  intra_codon :: "int option"
  codon_number :: "int option"
  initial_aa :: "char option"

definition get_codon_info :: "transcript \<Rightarrow> int \<Rightarrow> int \<Rightarrow> py_error + codon_info" where
  "get_codon_info tx bp boundary_dist =
     (let in_coding = in_coding_region tx bp in
      if boundary_dist \<ge> 9 \<and> \<not> in_coding then Inl IndexError
      else
        let cds_pos = chrom_pos_to_cds tx bp in
        if in_coding then
          let codon_number = get_codon_number_for_cds_position tx cds_pos;
              intra_codon = get_position_within_codon tx cds_pos;
              codon_seq = get_codon_sequence tx codon_number;
              initial_aa = translate tx codon_seq
          in Inr \<lparr>cds_pos = cds_pos, codon_seq = Some codon_seq,
                  intra_codon = Some intra_codon, codon_number = Some codon_number,
                  initial_aa = Some initial_aa\<rparr>
        else
          Inr \<lparr>cds_pos = cds_pos, codon_seq = None, intra_codon = None,
               codon_number = None, initial_aa = None\<rparr>)"

definition get_boundary_distance :: "transcript \<Rightarrow> int \<Rightarrow> int" where
  "get_boundary_distance tx bp =
     (let (exon_start, exon_end) = find_closest_exon tx bp;
          distance = min \<bar>exon_start - bp\<bar> \<bar>exon_end - bp\<bar>
      in if in_coding_region tx bp then distance + 1 else distance)"

definition get_gene_range :: "transcript \<Rightarrow> int \<times> int" where
  "get_gene_range tx =
     (let boundary_1 = get_cds_start tx;
          boundary_2 = get_cds_end tx;
          start = min boundary_1 boundary_2;
          end' = max boundary_1 boundary_2
      in (start, end' + 1))"

definition get_mutated_aa :: "transcript \<Rightarrow> char \<Rightarrow> string \<Rightarrow> int \<Rightarrow> py_error + char" where
  "get_mutated_aa tx base codon intra_codon =
     bind_err (list_set codon intra_codon base) (\<lambda>mutated_codon.
       Inr (translate tx mutated_codon))"
  for intra_codon

subsection \<open>The samplers\<close>

text \<open>
  Modelled from the spec: the class WeightedChoice (module denovonear.weights) is not
  among the sources. A sampler is the list of its entries (CDS position, mutation rate,
  reference base, alternate base) in the order they were added, and \<open>add_choice\<close>
  appends one entry.
\<close>

type_synonym 'r entry = "int \<times> 'r \<times> char \<times> char"

definition add_choice :: "'r entry list \<Rightarrow> int \<Rightarrow> 'r \<Rightarrow> char \<Rightarrow> char \<Rightarrow> 'r entry list" where
  "add_choice sampler pos rate ref alt = sampler @ [(pos, rate, ref, alt)]"

subsection \<open>Class SiteRates\<close>

datatype category =
  Missense | Nonsense | Synonymous | Splice_lof | Splice_region | Loss_of_function

definition bases :: "char list" where
  "bases = [CHR ''A'', CHR ''C'', CHR ''G'', CHR ''T'']"

definition categories :: "category list" where
  "categories = [Missense, Nonsense, Synonymous, Splice_lof, Splice_region, Loss_of_function]"

definition transdict :: "char \<rightharpoonup> char" where
  "transdict = map_of [(CHR ''A'', CHR ''T''), (CHR ''T'', CHR ''A''),
                       (CHR ''G'', CHR ''C''), (CHR ''C'', CHR ''G'')]"

text \<open>
  The attributes of a SiteRates object. \<open>boundary_dist\<close> is created by \<open>check_position\<close>
  before any check reads it; the constructor of the model starts it at 0.
\<close>

record 'r site_rates =
  gene :: transcript
  mut_dict :: "string \<rightharpoonup> (string \<rightharpoonup> 'r)"
  masked :: "transcript option"
  rates :: "category \<Rightarrow> 'r entry list"
  boundary_dist :: int

definition splice_lof_check :: "'r site_rates \<Rightarrow> char option \<Rightarrow> char option \<Rightarrow> int \<Rightarrow> bool" where
  "splice_lof_check self initial_aa mutated_aa position =
     ((\<not> in_coding_region (gene self) position) \<and> boundary_dist self < 3)"
  for initial_aa

definition nonsense_check :: "'r site_rates \<Rightarrow> char option \<Rightarrow> char option \<Rightarrow> int \<Rightarrow> bool" where
  "nonsense_check self initial_aa mutated_aa position =
     (initial_aa \<noteq> Some (CHR ''*'') \<and> mutated_aa = Some (CHR ''*''))"
  for initial_aa

definition missense_check :: "'r site_rates \<Rightarrow> char option \<Rightarrow> char option \<Rightarrow> int \<Rightarrow> bool" where
  "missense_check self initial_aa mutated_aa position =
     (if nonsense_check self initial_aa mutated_aa position \<or>
         splice_lof_check self initial_aa mutated_aa position
      then False
      else initial_aa \<noteq> mutated_aa)"
  for initial_aa

definition splice_region_check :: "'r site_rates \<Rightarrow> char option \<Rightarrow> char option \<Rightarrow> int \<Rightarrow> bool" where
  "splice_region_check self initial_aa mutated_aa position =
     (if splice_lof_check self initial_aa mutated_aa position \<or> initial_aa \<noteq> mutated_aa
      then False
      else if in_coding_region (gene self) position then boundary_dist self < 4
      else boundary_dist self < 9)"
  for initial_aa

definition synonymous_check :: "'r site_rates \<Rightarrow> char option \<Rightarrow> char option \<Rightarrow> int \<Rightarrow> bool" where
  "synonymous_check self initial_aa mutated_aa position =
     (\<not> nonsense_check self initial_aa mutated_aa position
      \<and> \<not> splice_lof_check self initial_aa mutated_aa position
      \<and> \<not> missense_check self initial_aa mutated_aa position
      \<and> \<not> splice_region_check self initial_aa mutated_aa position)"
  for initial_aa

text \<open>
  The \<open>if\<close>/\<open>elif\<close> chain of \<open>check_position\<close>. It has no \<open>else\<close>: when no branch is taken
  the local variable \<open>category\<close> keeps the binding it had (\<open>None\<close> when it has none yet).
\<close>

definition assign_category ::
  "'r site_rates \<Rightarrow> char option \<Rightarrow> char option \<Rightarrow> int \<Rightarrow> category option \<Rightarrow> category option" where
  "assign_category self initial_aa mutated_aa bp category =
     (if nonsense_check self initial_aa mutated_aa bp then Some Nonsense
      else if splice_lof_check self initial_aa mutated_aa bp then Some Splice_lof
      else if missense_check self initial_aa mutated_aa bp then Some Missense
      else if splice_region_check self initial_aa mutated_aa bp then Some Splice_region
      else if synonymous_check self initial_aa mutated_aa bp then Some Synonymous
      else category)"
  for initial_aa

text \<open>
  The amino acid after the change: \<open>mutated_aa = initial_aa\<close>, replaced by the result of
  \<open>get_mutated_aa\<close> when \<open>initial_aa\<close> is not None.
\<close>

definition mutated_aa_of :: "transcript \<Rightarrow> codon_info \<Rightarrow> char \<Rightarrow> py_error + char option" where
  "mutated_aa_of tx codon base =
     (if initial_aa codon \<noteq> None then
        (case (codon_seq codon, intra_codon codon) of
           (Some cs, Some ic) \<Rightarrow> bind_err (get_mutated_aa tx base cs ic) (\<lambda>aa. Inr (Some aa))
         | _ \<Rightarrow> Inl TypeError)
      else Inr (initial_aa codon))"

text \<open>The reference and alternate allele with respect to the plus strand.\<close>

definition plus_strand_alleles :: "transcript \<Rightarrow> char \<Rightarrow> char \<Rightarrow> py_error + char \<times> char" where
  "plus_strand_alleles tx ref_base alt =
     (if get_strand tx = ''-'' then
        bind_err (dict_get transdict ref_base) (\<lambda>ref_base'.
        bind_err (dict_get transdict alt) (\<lambda>alt'. Inr (ref_base', alt')))
      else Inr (ref_base, alt))"

text \<open>
  The body of the loop over the alternate bases. The state of the loop is the object and
  the local variable \<open>category\<close>.
\<close>

definition check_alternate ::
  "'r site_rates \<Rightarrow> int \<Rightarrow> string \<Rightarrow> codon_info \<Rightarrow> category option \<Rightarrow> char
     \<Rightarrow> py_error + ('r site_rates \<times> category option)" where
  "check_alternate self bp seq codon category base =
     bind_err (str_get seq 0) (\<lambda>s0.
     bind_err (str_get seq 2) (\<lambda>s2.
     let alt_base = [s0, base, s2] in
     bind_err (dict_get (mut_dict self) seq) (\<lambda>row.
     bind_err (dict_get row alt_base) (\<lambda>rate.
     bind_err (mutated_aa_of (gene self) codon base) (\<lambda>mutated_aa.
     let category = assign_category self (initial_aa codon) mutated_aa bp category in
     bind_err (str_get seq 1) (\<lambda>ref_base.
     bind_err (plus_strand_alleles (gene self) ref_base base) (\<lambda>(ref_base, alt).
     case category of
       None \<Rightarrow> Inl UnboundLocalError
     | Some c \<Rightarrow>
         let self = self\<lparr>rates := (rates self)
                       (c := add_choice (rates self c) (cds_pos codon) rate ref_base alt)\<rparr>;
             self = (if c \<in> set [Nonsense, Splice_lof]
                     then self\<lparr>rates := (rates self)
                            (Loss_of_function :=
                               add_choice (rates self Loss_of_function)
                                 (cds_pos codon) rate ref_base alt)\<rparr>
                     else self)
         in Inr (self, Some c))))))))"

fun check_alternates ::
  "'r site_rates \<Rightarrow> int \<Rightarrow> string \<Rightarrow> codon_info \<Rightarrow> category option \<Rightarrow> char list
     \<Rightarrow> py_error + ('r site_rates \<times> category option)" where
  "check_alternates self bp seq codon category [] = Inr (self, category)"
| "check_alternates self bp seq codon category (base # rest) =
     (case check_alternate self bp seq codon category base of
        Inl e \<Rightarrow> Inl e
      | Inr (self', category') \<Rightarrow> check_alternates self' bp seq codon category' rest)"

text \<open>
  \<open>self.bases - set(seq[1])\<close>. Python leaves the iteration order of a set open; the model
  takes the order A, C, G, T.
\<close>

definition alternates :: "char \<Rightarrow> char list" where
  "alternates ref_base = filter (\<lambda>b. b \<noteq> ref_base) bases"

text \<open>The working sequence: the trinucleotide, reverse-complemented on the minus strand.\<close>

definition working_seq :: "transcript \<Rightarrow> int \<Rightarrow> string" where
  "working_seq tx bp =
     (let seq = get_trinucleotide tx bp
      in if get_strand tx = ''-'' then reverse_complement tx seq else seq)"

definition check_position :: "'r site_rates \<Rightarrow> int \<Rightarrow> py_error + 'r site_rates" where
  "check_position self bp =
     (if (case masked self of None \<Rightarrow> False | Some m \<Rightarrow> in_coding_region m bp) then Inr self
      else if bp < min (get_cds_start (gene self)) (get_cds_end (gene self)) \<or>
              bp > max (get_cds_start (gene self)) (get_cds_end (gene self)) then Inr self
      else
        let self = self\<lparr>boundary_dist := get_boundary_distance (gene self) bp\<rparr>;
            seq = working_seq (gene self) bp
        in case get_codon_info (gene self) bp (boundary_dist self) of
             Inl e \<Rightarrow> (if e = IndexError then Inr self else Inl e)
           | Inr codon \<Rightarrow>
               bind_err (str_get seq 1) (\<lambda>ref_base.
               bind_err (check_alternates self bp seq codon None (alternates ref_base))
                 (\<lambda>(self', category). Inr self')))"

fun check_positions :: "'r site_rates \<Rightarrow> int list \<Rightarrow> py_error + 'r site_rates" where
  "check_positions self [] = Inr self"
| "check_positions self (bp # rest) =
     bind_err (check_position self bp) (\<lambda>self'. check_positions self' rest)"

text \<open>The constructor: \<open>SiteRates(gene, mut_dict, masked_sites)\<close>.\<close>

definition SiteRates ::
  "transcript \<Rightarrow> (string \<rightharpoonup> (string \<rightharpoonup> 'r)) \<Rightarrow> transcript option \<Rightarrow> py_error + 'r site_rates" where
  "SiteRates gene mut_dict masked_sites =
     (let self = \<lparr>gene = gene, mut_dict = mut_dict, masked = masked_sites,
                  rates = (\<lambda>cq. []), boundary_dist = 0\<rparr>;
          (start, end') = get_gene_range gene
      in check_positions self [start..end' - 1])"
  for gene mut_dict

text \<open>
  The classification as the specification words it: an ordered list of (predicate,
  category) pairs, and the category of the first pair whose predicate holds.
\<close>

definition classification_chain ::
  "'r site_rates \<Rightarrow> ((char option \<Rightarrow> char option \<Rightarrow> int \<Rightarrow> bool) \<times> category) list" where
  "classification_chain self =
     [(nonsense_check self, Nonsense), (splice_lof_check self, Splice_lof),
      (missense_check self, Missense), (splice_region_check self, Splice_region),
      (synonymous_check self, Synonymous)]"

definition first_match ::
  "'r site_rates \<Rightarrow> char option \<Rightarrow> char option \<Rightarrow> int \<Rightarrow> category option" where
  "first_match self initial_aa mutated_aa bp =
     map_option snd (find (\<lambda>(p, c). p initial_aa mutated_aa bp) (classification_chain self))"
  for initial_aa

section \<open>analyse\_de\_novos.py\<close>

subsection \<open>Scores, comparison, sorting and bisection\<close>

text \<open>
  A score is a number or a string (the string is "NA" in the specification). Python 3
  compares two numbers, or two strings (lexicographically), and raises TypeError for a
  number and a string.
\<close>

datatype py_value = Num rat | Str string

fun same_type :: "py_value \<Rightarrow> py_value \<Rightarrow> bool" where
  "same_type (Num a) (Num b) = True"
| "same_type (Str s) (Str t) = True"
| "same_type (Num a) (Str t) = False"
| "same_type (Str s) (Num b) = False"

text \<open>
  The order of the values of one type. Between the types it puts the numbers first; no
  function below consults it there, they raise TypeError before.
\<close>

instantiation py_value :: linorder
begin

fun less_eq_py_value :: "py_value \<Rightarrow> py_value \<Rightarrow> bool" where
  "less_eq_py_value (Num a) (Num b) = (a \<le> b)"
| "less_eq_py_value (Str s) (Str t) = (s \<le> t)"
| "less_eq_py_value (Num a) (Str t) = True"
| "less_eq_py_value (Str s) (Num b) = False"

definition less_py_value :: "py_value \<Rightarrow> py_value \<Rightarrow> bool" where
  "less_py_value x y = (x \<le> y \<and> \<not> y \<le> x)"

instance
proof
  fix x y z :: py_value
  show "(x < y) = (x \<le> y \<and> \<not> y \<le> x)"
    by (simp add: less_py_value_def)
  show "x \<le> x"
    by (cases x) simp_all
  show "x \<le> y \<Longrightarrow> y \<le> z \<Longrightarrow> x \<le> z"
    by (cases x; cases y; cases z) auto
  show "x \<le> y \<Longrightarrow> y \<le> x \<Longrightarrow> x = y"
    by (cases x; cases y) auto
  show "x \<le> y \<or> y \<le> x"
    by (cases x; cases y) auto
qed

end

text \<open>\<open>x < y\<close> as Python 3 evaluates it.\<close>

definition py_lt :: "py_value \<Rightarrow> py_value \<Rightarrow> py_error + bool" where
  "py_lt x y = (if same_type x y then Inr (x < y) else Inl TypeError)"

text \<open>
  \<open>list.sort()\<close>: a list holding a number and a string cannot be sorted, since some
  comparison meets both.
\<close>

definition homogeneous :: "py_value list \<Rightarrow> bool" where
  "homogeneous xs = (case xs of [] \<Rightarrow> True | x # rest \<Rightarrow> list_all (same_type x) rest)"

definition py_sort :: "py_value list \<Rightarrow> py_error + py_value list" where
  "py_sort xs = (if homogeneous xs then Inr (sort xs) else Inl TypeError)"

text \<open>
  \<open>bisect.bisect_right(a, x)\<close> of the standard library: a binary search with the test
  \<open>x < a[mid]\<close>.
\<close>

function bisect_loop :: "py_value list \<Rightarrow> py_value \<Rightarrow> nat \<Rightarrow> nat \<Rightarrow> py_error + nat" where
  "bisect_loop a x lo hi =
     (if lo < hi then
        (case py_lt x (a ! ((lo + hi) div 2)) of
           Inl e \<Rightarrow> Inl e
         | Inr b \<Rightarrow> if b then bisect_loop a x lo ((lo + hi) div 2)
                    else bisect_loop a x ((lo + hi) div 2 + 1) hi)
      else Inr lo)"
  by pat_completeness auto
termination
  by (relation "measure (\<lambda>(a, x, lo, hi). hi - lo)") auto

declare bisect_loop.simps [simp del]

definition bisect_right :: "py_value list \<Rightarrow> py_value \<Rightarrow> py_error + nat" where
  "bisect_right a x = bisect_loop a x 0 (length a)"

text \<open>\<open>a / b\<close> for two integers (true division).\<close>

definition py_truediv :: "int \<Rightarrow> int \<Rightarrow> py_error + rat" where
  "py_truediv a b = (if b = 0 then Inl ZeroDivisionError else Inr (of_int a / of_int b))"

subsection \<open>Formatting with one decimal\<close>

definition round_half_even :: "rat \<Rightarrow> int" where
  "round_half_even x =
     (let f = \<lfloor>x\<rfloor>; d = x - of_int f
      in if d < 1 / 2 then f else if 1 / 2 < d then f + 1 else if even f then f else f + 1)"

fun str_of_nat :: "nat \<Rightarrow> string" where
  "str_of_nat n =
     (if n < 10 then [''0123456789'' ! n]
      else str_of_nat (n div 10) @ [''0123456789'' ! (n mod 10)])"

definition format_0_1f :: "rat \<Rightarrow> string" where
  "format_0_1f x =
     (let t = nat (round_half_even (\<bar>x\<bar> * 10))
      in (if x < 0 then ''-'' else []) @ str_of_nat (t div 10) @ ''.'' @ str_of_nat (t mod 10))"

text \<open>
  \<open>"{0:0.1f}".format(v)\<close>: the format code \<open>f\<close> is not defined for a string, and Python
  raises ValueError.
\<close>

definition format_value :: "py_value \<Rightarrow> py_error + py_value" where
  "format_value v = (case v of Num x \<Rightarrow> Inr (Str (format_0_1f x)) | Str s \<Rightarrow> Inl ValueError)"

text \<open>
  The test \<open>type(observed_value) != "str"\<close> compares a class with a string: the two are
  never equal, so the test holds for every value.
\<close>

definition type_differs_from_str_literal :: "py_value \<Rightarrow> bool" where
  "type_differs_from_str_literal v = True"

subsection \<open>The world of an analysis\<close>

text \<open>
  What the methods change beside their results: the state of the random generator behind
  \<open>weights.choice()\<close>, the list object that is the default of the parameter \<open>dist\<close> of
  \<open>simulate_distribution\<close> (created once, when the function is defined, and shared by all
  calls that leave \<open>dist\<close> out), and a trace of the calls to the collaborators.
\<close>

datatype event = Convert int | Choice | Score "int list"

record 'g world =
  rng :: 'g
  default_dist :: "py_value list"
  trace :: "event list"

text \<open>
  An AnalyseDeNovos object: its transcript and the method \<open>get_score\<close>, which the class
  leaves to its subclasses (a parameter of the model). A sampler (\<open>weights\<close>) is the
  function that draws one site from a generator state.
\<close>

record analyser =
  transcript :: transcript
  get_score :: "int list \<Rightarrow> py_value"

definition log_event :: "event \<Rightarrow> 'g world \<Rightarrow> 'g world" where
  "log_event ev w = w\<lparr>trace := trace w @ [ev]\<rparr>"

definition weights_choice :: "('g \<Rightarrow> int \<times> 'g) \<Rightarrow> 'g world \<Rightarrow> int \<times> 'g world" where
  "weights_choice weights w =
     (let (site, g) = weights (rng w) in (site, log_event Choice (w\<lparr>rng := g\<rparr>)))"

subsection \<open>Class AnalyseDeNovos\<close>

function sample_positions ::
  "('g \<Rightarrow> int \<times> 'g) \<Rightarrow> int \<Rightarrow> int list \<Rightarrow> 'g world \<Rightarrow> int list \<times> 'g world" where
  "sample_positions weights sample_n positions w =
     (if int (length positions) < sample_n then
        sample_positions weights sample_n
          (positions @ [fst (weights_choice weights w)]) (snd (weights_choice weights w))
      else (positions, w))"
  by pat_completeness auto
termination
  by (relation "measure (\<lambda>(weights, sample_n, positions, w). nat (sample_n - int (length positions)))")
    auto

declare sample_positions.simps [simp del]

function simulate_loop ::
  "analyser \<Rightarrow> ('g \<Rightarrow> int \<times> 'g) \<Rightarrow> int \<Rightarrow> int \<Rightarrow> int \<Rightarrow> py_value list \<Rightarrow> 'g world
     \<Rightarrow> py_value list \<times> 'g world" where
  "simulate_loop self weights sample_n max_iter iteration dist' w =
     (if iteration < max_iter then
        (case sample_positions weights sample_n [] w of
           (positions, w') \<Rightarrow>
             simulate_loop self weights sample_n max_iter (iteration + 1)
               (dist' @ [get_score self positions]) (log_event (Score positions) w'))
      else (dist', w))"
  by pat_completeness auto
termination
  by (relation "measure (\<lambda>(self, weights, sample_n, max_iter, iteration, dist', w).
                  nat (max_iter - iteration))") auto

declare simulate_loop.simps [simp del]

text \<open>
  \<open>simulate_distribution(weights, dist=[], sample_n=2, max_iter=100)\<close>. The argument
  \<open>dist_arg\<close> is \<open>None\<close> when the caller leaves \<open>dist\<close> out: the list is then the default
  object, and the appends and the sort change that object. With an argument the list of
  the caller is changed and returned. When the sort raises, the list stays in some order
  (the model keeps the order of the appends).
\<close>

definition simulate_distribution ::
  "analyser \<Rightarrow> ('g \<Rightarrow> int \<times> 'g) \<Rightarrow> py_value list option \<Rightarrow> int \<Rightarrow> int \<Rightarrow> 'g world
     \<Rightarrow> (py_error + py_value list) \<times> 'g world" where
  "simulate_distribution self weights dist_arg sample_n max_iter w =
     (let dist' = (case dist_arg of None \<Rightarrow> default_dist w | Some d \<Rightarrow> d);
          iteration = int (length dist')
      in case simulate_loop self weights sample_n max_iter iteration dist' w of
           (appended, w') \<Rightarrow>
             (case py_sort appended of
                Inl e \<Rightarrow>
                  (Inl e, if dist_arg = None then w'\<lparr>default_dist := appended\<rparr> else w')
              | Inr sorted_dist \<Rightarrow>
                  (Inr sorted_dist,
                   if dist_arg = None then w'\<lparr>default_dist := sorted_dist\<rparr> else w')))"

fun convert_loop ::
  "analyser \<Rightarrow> int list \<Rightarrow> int list \<Rightarrow> 'g world \<Rightarrow> (py_error + int list) \<times> 'g world" where
  "convert_loop self cds_positions [] w = (Inr cds_positions, w)"
| "convert_loop self cds_positions (pos # rest) w =
     (case convert_chr_pos_to_cds_positions (transcript self) pos of
        Inl e \<Rightarrow> (Inl e, log_event (Convert pos) w)
      | Inr dist' \<Rightarrow> convert_loop self (cds_positions @ [dist']) rest (log_event (Convert pos) w))"

definition convert_de_novos_to_cds_positions ::
  "analyser \<Rightarrow> int list \<Rightarrow> 'g world \<Rightarrow> (py_error + int list) \<times> 'g world" where
  "convert_de_novos_to_cds_positions self de_novos w = convert_loop self [] de_novos w"

text \<open>
  The two lines of the loop body that compute the p-value of a round:
  \<open>pos = bisect.bisect_right(dist, observed_value)\<close> and
  \<open>sim_prob = (1 + pos)/(1 + len(dist))\<close>.
\<close>

definition simulated_probability :: "py_value list \<Rightarrow> py_value \<Rightarrow> py_error + rat" where
  "simulated_probability dist' observed_value =
     bind_err (bisect_right dist' observed_value) (\<lambda>pos.
       Inr (of_nat (1 + pos) / of_nat (1 + length dist')))"

text \<open>
  The \<open>while\<close> loop of \<open>analyse_de_novos\<close>; its state is \<open>iterations\<close>, \<open>sim_prob\<close>,
  \<open>minimum_prob\<close> and \<open>dist\<close>. The probabilities are exact fractions: the two floats that
  the loop compares are quotients of integers below 2 ^ 53, equal exactly when the
  fractions are.
\<close>

function adaptive_loop ::
  "analyser \<Rightarrow> ('g \<Rightarrow> int \<times> 'g) \<Rightarrow> int \<Rightarrow> py_value \<Rightarrow> int \<Rightarrow> rat \<Rightarrow> rat \<Rightarrow> py_value list
     \<Rightarrow> 'g world \<Rightarrow> (py_error + rat) \<times> 'g world" where
  "adaptive_loop self weights sample_n observed_value iterations sim_prob minimum_prob dist' w =
     (if iterations < 100000000 \<and> sim_prob = minimum_prob then
        (case py_truediv 1 (1 + iterations) of
           Inl e \<Rightarrow> (Inl e, w)
         | Inr minimum_prob' \<Rightarrow>
             (case simulate_distribution self weights (Some dist') sample_n iterations w of
                (Inl e, w') \<Rightarrow> (Inl e, w')
              | (Inr dist'', w') \<Rightarrow>
                  (case simulated_probability dist'' observed_value of
                     Inl e \<Rightarrow> (Inl e, w')
                   | Inr sim_prob' \<Rightarrow>
                       adaptive_loop self weights sample_n observed_value
                         (iterations + 1000000) sim_prob' minimum_prob' dist'' w')))
      else (Inr sim_prob, w))"
  by pat_completeness auto
termination
  by (relation "measure (\<lambda>(self, weights, sample_n, observed_value, iterations, rest).
                  nat (100000000 - iterations))") auto

declare adaptive_loop.simps [simp del]

definition analyse_de_novos ::
  "analyser \<Rightarrow> int list \<Rightarrow> ('g \<Rightarrow> int \<times> 'g) \<Rightarrow> int \<Rightarrow> 'g world
     \<Rightarrow> (py_error + py_value \<times> py_value) \<times> 'g world" where
  "analyse_de_novos self de_novos weights iterations w =
     (if length de_novos < 2 then (Inr (Str ''NA'', Str ''NA''), w)
      else
        (case py_truediv 1 (1 + iterations) of
           Inl e \<Rightarrow> (Inl e, w)
         | Inr minimum_prob \<Rightarrow>
             (case convert_de_novos_to_cds_positions self de_novos w of
                (Inl e, w1) \<Rightarrow> (Inl e, w1)
              | (Inr cds_positions, w1) \<Rightarrow>
                  let observed_value = get_score self cds_positions;
                      w2 = log_event (Score cds_positions) w1
                  in (case adaptive_loop self weights (int (length de_novos)) observed_value
                             iterations minimum_prob minimum_prob [] w2 of
                        (Inl e, w3) \<Rightarrow> (Inl e, w3)
                      | (Inr sim_prob, w3) \<Rightarrow>
                          (case (if type_differs_from_str_literal observed_value
                                 then format_value observed_value
                                 else Inr observed_value) of
                             Inl e \<Rightarrow> (Inl e, w3)
                           | Inr observed_value' \<Rightarrow>
                               (Inr (observed_value', Num sim_prob), w3))))))"

subsection \<open>The geometric mean\<close>







section \<open>Notions of the statements, and an example gene\<close>

text \<open>The five categories of the classification (the aggregate is not one of them).\<close>

definition five :: "category list" where
  "five = [Nonsense, Splice_lof, Missense, Splice_region, Synonymous]"

text \<open>
  The samplers after one entry \<open>e\<close> of category \<open>c\<close> was added: the sampler of \<open>c\<close> gets
  it, and the aggregate gets it too when \<open>c\<close> is nonsense or splice\_lof.
\<close>

definition add_entry :: "(category \<Rightarrow> 'r entry list) \<Rightarrow> category \<Rightarrow> 'r entry \<Rightarrow> category \<Rightarrow> 'r entry list" where
  "add_entry rs c e k =
     (if k = c \<or> (k = Loss_of_function \<and> c \<in> set [Nonsense, Splice_lof]) then rs k @ [e] else rs k)"

text \<open>The category of the first predicate that holds, as a total function.\<close>

definition category_of :: "'r site_rates \<Rightarrow> char option \<Rightarrow> char option \<Rightarrow> int \<Rightarrow> category" where
  "category_of self ia ma bp =
     (if nonsense_check self ia ma bp then Nonsense
      else if splice_lof_check self ia ma bp then Splice_lof
      else if missense_check self ia ma bp then Missense
      else if splice_region_check self ia ma bp then Splice_region
      else Synonymous)"

text \<open>The samplers after a list of (category, entry) pairs was added in order.\<close>

definition add_entries :: "(category \<Rightarrow> 'r entry list) \<Rightarrow> (category \<times> 'r entry) list \<Rightarrow> category \<Rightarrow> 'r entry list" where
  "add_entries rs assigned = foldl (\<lambda>rs (c, e). add_entry rs c e) rs assigned"

text \<open>
  \<open>assigned_to self bp codon base (c, e)\<close>: the amino acid after the change to \<open>base\<close> is
  computed without an exception, \<open>c\<close> is the category of the first predicate of the chain
  that holds for it, and the entry \<open>e\<close> carries the CDS position of the codon record.
\<close>

definition assigned_to :: "'r site_rates \<Rightarrow> int \<Rightarrow> codon_info \<Rightarrow> char \<Rightarrow> category \<times> 'r entry \<Rightarrow> bool" where
  "assigned_to self bp codon base ce =
     (case mutated_aa_of (gene self) codon base of
        Inl err \<Rightarrow> False
      | Inr ma \<Rightarrow> first_match self (initial_aa codon) ma bp = Some (fst ce)
                 \<and> fst (snd ce) = cds_pos codon)"

text \<open>
  An example gene on the plus strand: one exon at 10..12 with the codon TAC, followed by
  intronic bases up to 16; every mutation rate is 1/100.
\<close>

definition ex_translate :: "string \<Rightarrow> char" where
  "ex_translate codon =
     (if codon \<in> set [''TAA'', ''TAG'', ''TGA''] then CHR ''*''
      else if codon \<in> set [''TAC'', ''TAT''] then CHR ''Y''
      else CHR ''X'')"

definition ex_gene :: transcript where
  "ex_gene =
     \<lparr>get_cds_start = 10, get_cds_end = 16,
      in_coding_region = (\<lambda>p. 10 \<le> p \<and> p \<le> 12),
      find_closest_exon = (\<lambda>p. (10, 12)),
      chrom_pos_to_cds = (\<lambda>p. p - 10),
      get_codon_number_for_cds_position = (\<lambda>c. c div 3),
      get_position_within_codon = (\<lambda>c. c mod 3),
      get_codon_sequence = (\<lambda>n. ''TAC''),
      translate = ex_translate,
      get_trinucleotide = (\<lambda>p. take 3 (drop (nat (p - 10)) ''GTACGTAAG'')),
      reverse_complement = (\<lambda>s. s),
      get_strand = ''+'',
      convert_chr_pos_to_cds_positions =
        (\<lambda>p. if 10 \<le> p \<and> p \<le> 12 then Inr (p - 10) else Inl ValueError)\<rparr>"

definition ex_mut_dict :: "string \<rightharpoonup> (string \<rightharpoonup> rat)" where
  "ex_mut_dict = (\<lambda>before. Some (\<lambda>after. Some (1 / 100)))"

definition ex_site_rates :: "rat site_rates" where
  "ex_site_rates =
     \<lparr>gene = ex_gene, mut_dict = ex_mut_dict, masked = None, rates = (\<lambda>cq. []),
      boundary_dist = 0\<rparr>"

text \<open>
  An example analysis on the example gene: the score of a list of positions is their sum,
  the sampler draws the site 50 every time (its generator state counts the draws), and
  the world starts with an empty default list and an empty trace. A second analyser
  scores every list "NA".
\<close>

definition ex_score :: "int list \<Rightarrow> py_value" where
  "ex_score positions = Num (of_int (sum_list positions))"

definition ex_analyser :: analyser where
  "ex_analyser = \<lparr>transcript = ex_gene, get_score = ex_score\<rparr>"

definition ex_na_analyser :: analyser where
  "ex_na_analyser = \<lparr>transcript = ex_gene, get_score = (\<lambda>positions. Str ''NA'')\<rparr>"

definition ex_weights :: "nat \<Rightarrow> int \<times> nat" where
  "ex_weights g = (50, g + 1)"

definition ex_world :: "nat world" where
  "ex_world = \<lparr>rng = 0, default_dist = [], trace = []\<rparr>"

text \<open>Whether the transcript maps a position to a CDS coordinate, and the coordinate.\<close>

definition convert_ok :: "analyser \<Rightarrow> int \<Rightarrow> bool" where
  "convert_ok self pos =
     (case convert_chr_pos_to_cds_positions (transcript self) pos of
        Inl e \<Rightarrow> False | Inr c \<Rightarrow> True)"

definition converted :: "analyser \<Rightarrow> int \<Rightarrow> int" where
  "converted self pos =
     (case convert_chr_pos_to_cds_positions (transcript self) pos of
        Inl e \<Rightarrow> 0 | Inr c \<Rightarrow> c)"

text \<open>The world after a list of events was appended to the trace.\<close>

definition log_events :: "event list \<Rightarrow> 'g world \<Rightarrow> 'g world" where
  "log_events evs w = w\<lparr>trace := trace w @ evs\<rparr>"



text \<open>The world with another list as the default of \<open>dist\<close>.\<close>

definition with_default :: "py_value list \<Rightarrow> 'g world \<Rightarrow> 'g world" where
  "with_default x w = w\<lparr>default_dist := x\<rparr>"

section \<open>The classification of check\_position\<close>

lemma first_match_cases:
  "first_match self ia ma bp =
     Some (if nonsense_check self ia ma bp then Nonsense
      else if splice_lof_check self ia ma bp then Splice_lof
      else if missense_check self ia ma bp then Missense
      else if splice_region_check self ia ma bp then Splice_region
      else Synonymous)"
  by (simp add: first_match_def classification_chain_def synonymous_check_def)

lemma assign_category_first_match:
  "assign_category self ia ma bp category = first_match self ia ma bp"
  by (simp add: first_match_cases assign_category_def synonymous_check_def)

lemma first_match_in_five:
  "first_match self ia ma bp = Some c \<Longrightarrow> c \<in> set five"
  by (auto simp: first_match_cases five_def split: if_splits)

lemma first_match_rates_irrelevant:
  "first_match (self\<lparr>rates := r\<rparr>) ia ma bp = first_match self ia ma bp"
  by (simp add: first_match_cases nonsense_check_def splice_lof_check_def missense_check_def
      splice_region_check_def)

lemma first_match_category_of: "first_match self ia ma bp = Some (category_of self ia ma bp)"
  by (simp add: first_match_cases category_of_def)

lemma category_of_not_lof: "category_of self ia ma bp \<noteq> Loss_of_function"
  by (simp add: category_of_def)

lemma check_alternate_eq:
  "check_alternate self bp seq codon category base =
     bind_err (str_get seq 0) (\<lambda>s0.
     bind_err (str_get seq 2) (\<lambda>s2.
     bind_err (dict_get (mut_dict self) seq) (\<lambda>row.
     bind_err (dict_get row [s0, base, s2]) (\<lambda>rate.
     bind_err (mutated_aa_of (gene self) codon base) (\<lambda>ma.
     bind_err (str_get seq 1) (\<lambda>ref_base.
     bind_err (plus_strand_alleles (gene self) ref_base base) (\<lambda>(r, a).
       Inr (self\<lparr>rates := add_entry (rates self) (category_of self (initial_aa codon) ma bp)
                 (cds_pos codon, rate, r, a)\<rparr>,
            Some (category_of self (initial_aa codon) ma bp)))))))))"
  unfolding check_alternate_def assign_category_first_match first_match_category_of
    bind_err_def Let_def
  by (auto split: sum.splits prod.splits
      simp: add_entry_def add_choice_def fun_eq_iff category_of_not_lof
        category_of_not_lof [symmetric])

lemma check_alternate_Inr:
  assumes "check_alternate self bp seq codon category base = Inr (self', category')"
  shows "\<exists>ma c e. mutated_aa_of (gene self) codon base = Inr ma
           \<and> first_match self (initial_aa codon) ma bp = Some c
           \<and> category' = Some c
           \<and> self' = self\<lparr>rates := add_entry (rates self) c e\<rparr>
           \<and> fst e = cds_pos codon"
  using assms unfolding check_alternate_eq bind_err_def
  by (auto split: sum.splits prod.splits simp: first_match_category_of)

lemma assigned_to_rates [simp]:
  "assigned_to (self\<lparr>rates := r\<rparr>) bp codon = assigned_to self bp codon"
  by (simp add: assigned_to_def first_match_rates_irrelevant fun_eq_iff split: sum.splits)

lemma check_alternates_Inr:
  "check_alternates self bp seq codon category bs = Inr (self', category') \<Longrightarrow>
   \<exists>assigned. list_all2 (assigned_to self bp codon) bs assigned
      \<and> self' = self\<lparr>rates := add_entries (rates self) assigned\<rparr>"
proof (induction bs arbitrary: self category)
  case Nil
  then show ?case by (simp add: add_entries_def)
next
  case (Cons b bs)
  from Cons.prems obtain self1 cat1 where
    step: "check_alternate self bp seq codon category b = Inr (self1, cat1)" and
    rest: "check_alternates self1 bp seq codon cat1 bs = Inr (self', category')"
    by (auto split: sum.splits)
  from check_alternate_Inr [OF step] obtain ma c e where
    ma: "mutated_aa_of (gene self) codon b = Inr ma" and
    c: "first_match self (initial_aa codon) ma bp = Some c" and
    self1: "self1 = self\<lparr>rates := add_entry (rates self) c e\<rparr>" and
    e: "fst e = cds_pos codon"
    by blast
  from Cons.IH [OF rest] obtain assigned where
    all: "list_all2 (assigned_to self1 bp codon) bs assigned" and
    self': "self' = self1\<lparr>rates := add_entries (rates self1) assigned\<rparr>"
    by blast
  have hd: "assigned_to self bp codon b (c, e)"
    using ma c e by (cases e) (simp add: assigned_to_def)
  have "list_all2 (assigned_to self bp codon) (b # bs) ((c, e) # assigned)"
    using hd all by (simp add: self1)
  moreover have "self' = self\<lparr>rates := add_entries (rates self) ((c, e) # assigned)\<rparr>"
    using self' by (simp add: self1 add_entries_def)
  ultimately show ?case by blast
qed

lemma add_entries_apply:
  "add_entries rs assigned k =
     rs k @ map snd (filter (\<lambda>(c, e). k = c \<or> (k = Loss_of_function \<and> c \<in> set [Nonsense, Splice_lof])) assigned)"
proof (induction assigned arbitrary: rs)
  case Nil
  then show ?case by (simp add: add_entries_def)
next
  case (Cons ce assigned)
  obtain c e where ce: "ce = (c, e)" by (cases ce)
  have "add_entries rs (ce # assigned) k = add_entries (add_entry rs c e) assigned k"
    by (simp add: add_entries_def ce)
  also have "\<dots> = add_entry rs c e k @
      map snd (filter (\<lambda>(c, e). k = c \<or> (k = Loss_of_function \<and> c \<in> set [Nonsense, Splice_lof])) assigned)"
    by (rule Cons.IH)
  finally show ?case
    by (auto simp: add_entry_def ce)
qed

lemma assigned_to_five: "assigned_to self bp codon b ce \<Longrightarrow> fst ce \<in> set five"
  by (auto simp: assigned_to_def dest: first_match_in_five split: sum.splits)

lemma assigned_all_five:
  "list_all2 (assigned_to self bp codon) bs assigned \<Longrightarrow> \<forall>ce \<in> set assigned. fst ce \<in> set five"
  by (induction rule: list_all2_induct) (auto dest: assigned_to_five)

lemma check_position_processed:
  assumes ok: "check_position self bp = Inr self'"
    and nomask: "\<not> (case masked self of None \<Rightarrow> False | Some m \<Rightarrow> in_coding_region m bp)"
    and lo: "min (get_cds_start (gene self)) (get_cds_end (gene self)) \<le> bp"
    and hi: "bp \<le> max (get_cds_start (gene self)) (get_cds_end (gene self))"
    and codon: "get_codon_info (gene self) bp (get_boundary_distance (gene self) bp) = Inr codon"
  shows "\<exists>ref_base assigned.
           str_get (working_seq (gene self) bp) 1 = Inr ref_base
         \<and> list_all2 (assigned_to (self\<lparr>boundary_dist := get_boundary_distance (gene self) bp\<rparr>) bp codon)
              (alternates ref_base) assigned
         \<and> self' = self\<lparr>boundary_dist := get_boundary_distance (gene self) bp,
                        rates := add_entries (rates self) assigned\<rparr>"
proof -
  let ?self = "self\<lparr>boundary_dist := get_boundary_distance (gene self) bp\<rparr>"
  from ok nomask lo hi codon obtain ref_base cat where
    r: "str_get (working_seq (gene self) bp) 1 = Inr ref_base" and
    loop: "check_alternates ?self bp (working_seq (gene self) bp) codon None (alternates ref_base)
             = Inr (self', cat)"
    unfolding check_position_def bind_err_def Let_def
    by (auto split: sum.splits prod.splits if_splits)
  from check_alternates_Inr [OF loop] r show ?thesis
    by auto
qed

lemmas ex_defs = ex_site_rates_def ex_gene_def ex_mut_dict_def ex_translate_def
  check_position_def get_boundary_distance_def working_seq_def get_codon_info_def
  bind_err_def str_get_def alternates_def bases_def check_alternate_def dict_get_def
  mutated_aa_of_def get_mutated_aa_def list_set_def assign_category_def
  nonsense_check_def splice_lof_check_def missense_check_def splice_region_check_def
  synonymous_check_def plus_strand_alleles_def add_choice_def Let_def

lemma alternates_length: "ref_base \<in> set bases \<Longrightarrow> length (alternates ref_base) = 3"
  by (auto simp: alternates_def bases_def)

lemma add_entries_five:
  assumes "\<forall>ce \<in> set assigned. fst ce \<in> set five" and "k \<in> set five"
  shows "add_entries rs assigned k = rs k @ map snd (filter (\<lambda>(c, e). c = k) assigned)"
proof -
  have "k \<noteq> Loss_of_function" using assms(2) by (auto simp: five_def)
  then have "filter (\<lambda>(c, e). k = c \<or> (k = Loss_of_function \<and> c \<in> set [Nonsense, Splice_lof])) assigned
      = filter (\<lambda>(c, e). c = k) assigned"
    by (intro filter_cong) auto
  then show ?thesis by (simp add: add_entries_apply)
qed

lemma add_entries_lof:
  assumes "\<forall>ce \<in> set assigned. fst ce \<in> set five"
  shows "add_entries rs assigned Loss_of_function =
     rs Loss_of_function @ map snd (filter (\<lambda>(c, e). c = Nonsense \<or> c = Splice_lof) assigned)"
proof -
  have "filter (\<lambda>(c, e). Loss_of_function = c \<or> (Loss_of_function = Loss_of_function \<and> c \<in> set [Nonsense, Splice_lof])) assigned
      = filter (\<lambda>(c, e). c = Nonsense \<or> c = Splice_lof) assigned"
    using assms by (intro filter_cong) (auto simp: five_def)
  then show ?thesis by (simp add: add_entries_apply)
qed

text \<open>
  Claim C2. A position that \<open>check_position\<close> processes (it is not masked, it lies in the
  CDS range and \<open>get_codon_info\<close> returns a codon record) has one (category, entry) pair
  for each alternate base, three of them when the reference base is one of A, C, G, T. The
  category of each pair is the one of the first predicate that holds in the order
  nonsense, splice\_lof, missense, splice\_region, synonymous, so it is one of the five,
  and the sampler of each of the five categories receives exactly the entries of the pairs
  of that category: an entry is in one sampler of the five and in no other. The chain of
  the code always binds \<open>category\<close>, to the category of the first match.
\<close>

theorem check_position_first_match:
  assumes "check_position self bp = Inr self'"
    and "\<not> (case masked self of None \<Rightarrow> False | Some m \<Rightarrow> in_coding_region m bp)"
    and "min (get_cds_start (gene self)) (get_cds_end (gene self)) \<le> bp"
    and "bp \<le> max (get_cds_start (gene self)) (get_cds_end (gene self))"
    and "get_codon_info (gene self) bp (get_boundary_distance (gene self) bp) = Inr codon"
  shows "assign_category self ia ma bp category = first_match self ia ma bp \<and>
         (\<exists>ref_base assigned.
           str_get (working_seq (gene self) bp) 1 = Inr ref_base
         \<and> list_all2
             (assigned_to (self\<lparr>boundary_dist := get_boundary_distance (gene self) bp\<rparr>) bp codon)
             (alternates ref_base) assigned
         \<and> (\<forall>ce \<in> set assigned. fst ce \<in> set five)
         \<and> (\<forall>k \<in> set five.
               rates self' k = rates self k @ map snd (filter (\<lambda>(c, e). c = k) assigned))
         \<and> (ref_base \<in> set bases \<longrightarrow> length assigned = 3))"
proof -
  from check_position_processed [OF assms] obtain ref_base assigned where
    r: "str_get (working_seq (gene self) bp) 1 = Inr ref_base" and
    all: "list_all2
            (assigned_to (self\<lparr>boundary_dist := get_boundary_distance (gene self) bp\<rparr>) bp codon)
            (alternates ref_base) assigned" and
    self': "self' = self\<lparr>boundary_dist := get_boundary_distance (gene self) bp,
                        rates := add_entries (rates self) assigned\<rparr>"
    by blast
  have five: "\<forall>ce \<in> set assigned. fst ce \<in> set five"
    by (rule assigned_all_five [OF all])
  have rates: "\<forall>k \<in> set five.
      rates self' k = rates self k @ map snd (filter (\<lambda>(c, e). c = k) assigned)"
    using add_entries_five [OF five] by (simp add: self')
  have len: "ref_base \<in> set bases \<longrightarrow> length assigned = 3"
    using list_all2_lengthD [OF all] alternates_length [of ref_base] by auto
  from r all five rates len show ?thesis
    by (simp only: assign_category_first_match) blast
qed

theorem check_position_first_match_witness:
  "\<exists>self' assigned.
      check_position ex_site_rates 12 = Inr self'
    \<and> str_get (working_seq (gene ex_site_rates) 12) 1 = Inr (CHR ''C'')
    \<and> length assigned = 3
    \<and> (\<forall>k \<in> set five.
          rates self' k = rates ex_site_rates k @ map snd (filter (\<lambda>(c, e). c = k) assigned))"
proof -
  obtain s where s: "check_position ex_site_rates 12 = Inr s"
    by (simp add: ex_defs)
  have h2: "\<not> (case masked ex_site_rates of None \<Rightarrow> False | Some m \<Rightarrow> in_coding_region m 12)"
    by (simp add: ex_site_rates_def)
  have h3: "min (get_cds_start (gene ex_site_rates)) (get_cds_end (gene ex_site_rates)) \<le> 12"
    by (simp add: ex_site_rates_def ex_gene_def)
  have h4: "12 \<le> max (get_cds_start (gene ex_site_rates)) (get_cds_end (gene ex_site_rates))"
    by (simp add: ex_site_rates_def ex_gene_def)
  have h5: "get_codon_info (gene ex_site_rates) 12 (get_boundary_distance (gene ex_site_rates) 12)
      = Inr \<lparr>cds_pos = 2, codon_seq = Some ''TAC'', intra_codon = Some 2,
             codon_number = Some 0, initial_aa = Some (CHR ''Y'')\<rparr>"
    by (simp add: ex_defs)
  have r: "str_get (working_seq (gene ex_site_rates) 12) 1 = Inr (CHR ''C'')"
    by (simp add: ex_defs)
  have b: "CHR ''C'' \<in> set bases"
    by (simp add: bases_def)
  from check_position_first_match [OF s h2 h3 h4 h5, of None None None] r b s show ?thesis
    by fastforce
qed

section \<open>Positions outside the coding region\<close>

lemma get_codon_info_noncoding:
  assumes "\<not> in_coding_region tx bp" and "bd < 9"
  shows "get_codon_info tx bp bd =
     Inr \<lparr>cds_pos = chrom_pos_to_cds tx bp, codon_seq = None, intra_codon = None,
          codon_number = None, initial_aa = None\<rparr>"
  using assms by (simp add: get_codon_info_def)

lemma first_match_noncoding_splice_region:
  assumes "\<not> in_coding_region (gene self) bp" and "3 \<le> boundary_dist self" and "boundary_dist self < 9"
  shows "first_match self None None bp = Some Splice_region"
  using assms
  by (simp add: first_match_cases nonsense_check_def splice_lof_check_def missense_check_def
      splice_region_check_def)

lemma assigned_to_noncoding:
  assumes "assigned_to self bp codon base ce" and "initial_aa codon = None"
    and "\<not> in_coding_region (gene self) bp" and "3 \<le> boundary_dist self" and "boundary_dist self < 9"
  shows "fst ce = Splice_region"
  using assms first_match_noncoding_splice_region [of self bp]
  by (simp add: assigned_to_def mutated_aa_of_def)

lemma filter_all_same:
  assumes "\<forall>ce \<in> set assigned. fst ce = c"
  shows "filter (\<lambda>(c', e). k = c' \<or> (k = Loss_of_function \<and> c' \<in> set [Nonsense, Splice_lof])) assigned
       = (if k = c \<or> (k = Loss_of_function \<and> c \<in> set [Nonsense, Splice_lof]) then assigned else [])"
  using assms by (induction assigned) auto

text \<open>
  Claim C10. At a position outside the coding region whose boundary distance is at least
  3 and less than 9, which \<open>check_position\<close> processes (not masked, in the CDS range),
  \<open>get_codon_info\<close> returns a codon record whose \<open>initial_aa\<close> is None, the mutated amino
  acid is None for every alternate base, the nonsense and missense predicates are false
  and the splice\_region predicate holds. Every alternate base is assigned splice\_region:
  the splice\_region sampler receives one entry for each alternate base and no other
  sampler changes.
\<close>

theorem noncoding_splice_region:
  assumes ok: "check_position self bp = Inr self'"
    and nomask: "\<not> (case masked self of None \<Rightarrow> False | Some m \<Rightarrow> in_coding_region m bp)"
    and lo: "min (get_cds_start (gene self)) (get_cds_end (gene self)) \<le> bp"
    and hi: "bp \<le> max (get_cds_start (gene self)) (get_cds_end (gene self))"
    and nc: "\<not> in_coding_region (gene self) bp"
    and bd3: "3 \<le> get_boundary_distance (gene self) bp"
    and bd9: "get_boundary_distance (gene self) bp < 9"
  shows "\<exists>codon ref_base assigned.
           get_codon_info (gene self) bp (get_boundary_distance (gene self) bp) = Inr codon
         \<and> initial_aa codon = None
         \<and> mutated_aa_of (gene self) codon base = Inr None
         \<and> \<not> nonsense_check (self\<lparr>boundary_dist := get_boundary_distance (gene self) bp\<rparr>) None None bp
         \<and> \<not> missense_check (self\<lparr>boundary_dist := get_boundary_distance (gene self) bp\<rparr>) None None bp
         \<and> splice_region_check (self\<lparr>boundary_dist := get_boundary_distance (gene self) bp\<rparr>) None None bp
         \<and> str_get (working_seq (gene self) bp) 1 = Inr ref_base
         \<and> list_all2
             (assigned_to (self\<lparr>boundary_dist := get_boundary_distance (gene self) bp\<rparr>) bp codon)
             (alternates ref_base) assigned
         \<and> list_all (\<lambda>ce. fst ce = Splice_region) assigned
         \<and> rates self' Splice_region = rates self Splice_region @ map snd assigned
         \<and> list_all (\<lambda>k. rates self' k = rates self k)
              [Missense, Nonsense, Synonymous, Splice_lof, Loss_of_function]"
proof -
  let ?bd = "get_boundary_distance (gene self) bp"
  let ?self = "self\<lparr>boundary_dist := ?bd\<rparr>"
  let ?codon = "\<lparr>cds_pos = chrom_pos_to_cds (gene self) bp, codon_seq = None,
                 intra_codon = None, codon_number = None, initial_aa = None\<rparr>"
  have codon: "get_codon_info (gene self) bp ?bd = Inr ?codon"
    by (rule get_codon_info_noncoding [OF nc bd9])
  from check_position_processed [OF ok nomask lo hi codon] obtain ref_base assigned where
    r: "str_get (working_seq (gene self) bp) 1 = Inr ref_base" and
    all: "list_all2 (assigned_to ?self bp ?codon) (alternates ref_base) assigned" and
    self': "self' = self\<lparr>boundary_dist := ?bd, rates := add_entries (rates self) assigned\<rparr>"
    by blast
  have same: "\<forall>ce \<in> set assigned. fst ce = Splice_region"
  proof
    fix ce assume "ce \<in> set assigned"
    then obtain b where "assigned_to ?self bp ?codon b ce"
      using all by (auto simp: list_all2_conv_all_nth in_set_conv_nth)
    then show "fst ce = Splice_region"
      using nc bd3 bd9 by (intro assigned_to_noncoding [of ?self bp ?codon b ce]) simp_all
  qed
  have rates: "rates self' k = rates self k @
      map snd (if k = Splice_region then assigned else [])" for k
  proof -
    have "rates self' k = add_entries (rates self) assigned k"
      by (simp add: self')
    also have "\<dots> = rates self k @ map snd (filter (\<lambda>(c', e).
        k = c' \<or> (k = Loss_of_function \<and> c' \<in> set [Nonsense, Splice_lof])) assigned)"
      by (rule add_entries_apply)
    also have "filter (\<lambda>(c', e).
        k = c' \<or> (k = Loss_of_function \<and> c' \<in> set [Nonsense, Splice_lof])) assigned
        = (if k = Splice_region then assigned else [])"
      by (subst filter_all_same [OF same]) simp
    finally show ?thesis .
  qed
  have checks: "\<not> nonsense_check ?self None None bp" "\<not> missense_check ?self None None bp"
    "splice_region_check ?self None None bp"
    using nc bd3 bd9
    by (simp_all add: nonsense_check_def splice_lof_check_def missense_check_def
        splice_region_check_def)
  have ma: "mutated_aa_of (gene self) ?codon base = Inr None"
    by (simp add: mutated_aa_of_def)
  have "list_all (\<lambda>ce. fst ce = Splice_region) assigned"
    using same by (simp add: list_all_iff)
  moreover have "rates self' Splice_region = rates self Splice_region @ map snd assigned"
    by (simp add: rates)
  moreover have "list_all (\<lambda>k. rates self' k = rates self k)
              [Missense, Nonsense, Synonymous, Splice_lof, Loss_of_function]"
    by (simp add: rates)
  ultimately show ?thesis
    using codon checks ma r all
    by (intro exI [of _ ?codon] exI [of _ ref_base] exI [of _ assigned]) simp
qed

theorem noncoding_splice_region_witness:
  "\<exists>self' (assigned :: (category \<times> rat entry) list).
      check_position ex_site_rates 15 = Inr self'
    \<and> \<not> in_coding_region (gene ex_site_rates) 15
    \<and> get_boundary_distance (gene ex_site_rates) 15 = 3
    \<and> length assigned = 3
    \<and> rates self' Splice_region = rates ex_site_rates Splice_region @ map snd assigned
    \<and> rates self' Missense = rates ex_site_rates Missense"
proof -
  obtain s where s: "check_position ex_site_rates 15 = Inr s"
    by (simp add: ex_defs)
  have h2: "\<not> (case masked ex_site_rates of None \<Rightarrow> False | Some m \<Rightarrow> in_coding_region m 15)"
    by (simp add: ex_site_rates_def)
  have h3: "min (get_cds_start (gene ex_site_rates)) (get_cds_end (gene ex_site_rates)) \<le> 15"
    by (simp add: ex_site_rates_def ex_gene_def)
  have h4: "15 \<le> max (get_cds_start (gene ex_site_rates)) (get_cds_end (gene ex_site_rates))"
    by (simp add: ex_site_rates_def ex_gene_def)
  have h5: "\<not> in_coding_region (gene ex_site_rates) 15"
    by (simp add: ex_site_rates_def ex_gene_def)
  have bd: "get_boundary_distance (gene ex_site_rates) 15 = 3"
    by (simp add: ex_defs)
  have h6: "3 \<le> get_boundary_distance (gene ex_site_rates) 15"
    and h7: "get_boundary_distance (gene ex_site_rates) 15 < 9"
    by (simp_all add: bd)
  have r: "str_get (working_seq (gene ex_site_rates) 15) 1 = Inr (CHR ''A'')"
    by (simp add: ex_defs)
  have len: "length (alternates (CHR ''A'')) = 3"
    by (simp add: alternates_def bases_def)
  from noncoding_splice_region [OF s h2 h3 h4 h5 h6 h7, of "CHR ''C''"] obtain codon ref_base assigned where
    a: "str_get (working_seq (gene ex_site_rates) 15) 1 = Inr ref_base"
    "list_all2
       (assigned_to (ex_site_rates\<lparr>boundary_dist := get_boundary_distance (gene ex_site_rates) 15\<rparr>) 15 codon)
       (alternates ref_base) assigned"
    "rates s Splice_region = rates ex_site_rates Splice_region @ map snd assigned"
    "list_all (\<lambda>k. rates s k = rates ex_site_rates k)
              [Missense, Nonsense, Synonymous, Splice_lof, Loss_of_function]"
    by blast
  have "ref_base = CHR ''A''" using a(1) r by simp
  then have "length assigned = 3" using list_all2_lengthD [OF a(2)] len by simp
  with s h5 bd a(3,4) have
    "check_position ex_site_rates 15 = Inr s
    \<and> \<not> in_coding_region (gene ex_site_rates) 15
    \<and> get_boundary_distance (gene ex_site_rates) 15 = 3
    \<and> length assigned = 3
    \<and> rates s Splice_region = rates ex_site_rates Splice_region @ map snd assigned
    \<and> rates s Missense = rates ex_site_rates Missense"
    by simp
  then show ?thesis by blast
qed

section \<open>The aggregate sampler\<close>

lemma add_entries_append:
  "add_entries rs (xs @ ys) = add_entries (add_entries rs xs) ys"
  by (simp add: add_entries_def)

lemma check_position_rates:
  assumes "check_position self bp = Inr self'"
  shows "\<exists>assigned. (\<forall>ce \<in> set assigned. fst ce \<in> set five)
           \<and> rates self' = add_entries (rates self) assigned"
proof -
  let ?self = "self\<lparr>boundary_dist := get_boundary_distance (gene self) bp\<rparr>"
  consider (skip) "rates self' = rates self"
    | (loop) ref_base codon cat where
        "check_alternates ?self bp (working_seq (gene self) bp) codon None (alternates ref_base)
           = Inr (self', cat)"
    using assms unfolding check_position_def bind_err_def Let_def
    by (auto split: sum.splits prod.splits if_splits)
  then show ?thesis
  proof cases
    case skip
    then have "rates self' = add_entries (rates self) []"
      by (simp add: add_entries_def)
    then show ?thesis by (intro exI [of _ "[]"]) simp
  next
    case loop
    from check_alternates_Inr [OF loop] obtain assigned where
      all: "list_all2 (assigned_to ?self bp codon) (alternates ref_base) assigned" and
      self': "self' = ?self\<lparr>rates := add_entries (rates ?self) assigned\<rparr>"
      by blast
    have "\<forall>ce \<in> set assigned. fst ce \<in> set five"
      by (rule assigned_all_five [OF all])
    moreover have "rates self' = add_entries (rates self) assigned"
      by (simp add: self')
    ultimately show ?thesis by blast
  qed
qed

lemma check_positions_rates:
  "check_positions self bps = Inr self' \<Longrightarrow>
   \<exists>assigned. (\<forall>ce \<in> set assigned. fst ce \<in> set five)
      \<and> rates self' = add_entries (rates self) assigned"
proof (induction bps arbitrary: self)
  case Nil
  then have "rates self' = add_entries (rates self) []"
    by (simp add: add_entries_def)
  then show ?case by (intro exI [of _ "[]"]) simp
next
  case (Cons bp bps)
  from Cons.prems obtain self1 where
    one: "check_position self bp = Inr self1" and
    rest: "check_positions self1 bps = Inr self'"
    by (auto simp: bind_err_def split: sum.splits)
  from check_position_rates [OF one] obtain xs where
    xs: "\<forall>ce \<in> set xs. fst ce \<in> set five" "rates self1 = add_entries (rates self) xs"
    by blast
  from Cons.IH [OF rest] obtain ys where
    ys: "\<forall>ce \<in> set ys. fst ce \<in> set five" "rates self' = add_entries (rates self1) ys"
    by blast
  have "rates self' = add_entries (rates self) (xs @ ys)"
    by (simp add: ys(2) xs(2) add_entries_append)
  moreover have "\<forall>ce \<in> set (xs @ ys). fst ce \<in> set five"
    using xs(1) ys(1) by auto
  ultimately show ?case by blast
qed

lemma mset_filter_lof:
  "mset (map snd (filter (\<lambda>(c, e). c = Nonsense \<or> c = Splice_lof) assigned)) =
   mset (map snd (filter (\<lambda>(c, e). c = Nonsense) assigned)) +
   mset (map snd (filter (\<lambda>(c, e). c = Splice_lof) assigned))"
  by (induction assigned) auto

text \<open>
  Claim C4. When the constructor returns, there is one list of (category, entry) pairs,
  in the order of insertion and with categories among the five, such that the sampler of
  each of the five categories holds exactly the entries of its pairs, and the
  loss\_of\_function sampler holds exactly the entries of the pairs of category nonsense
  or splice\_lof, each the same entry (CDS position, rate, reference and alternate base)
  as in the sampler of its own category. As multisets, the loss\_of\_function entries are
  the union of the nonsense and the splice\_lof entries.
\<close>

theorem loss_of_function_union:
  assumes "SiteRates g md mk = Inr self"
  shows "\<exists>assigned.
           (\<forall>ce \<in> set assigned. fst ce \<in> set five)
         \<and> (\<forall>k \<in> set five. rates self k = map snd (filter (\<lambda>(c, e). c = k) assigned))
         \<and> rates self Loss_of_function =
             map snd (filter (\<lambda>(c, e). c = Nonsense \<or> c = Splice_lof) assigned)
         \<and> mset (rates self Loss_of_function) =
             mset (rates self Nonsense) + mset (rates self Splice_lof)"
proof -
  let ?self0 = "\<lparr>gene = g, mut_dict = md, masked = mk, rates = (\<lambda>cq. []), boundary_dist = 0\<rparr>"
  from assms obtain bps where "check_positions ?self0 bps = Inr self"
    by (auto simp: SiteRates_def Let_def split: prod.splits)
  from check_positions_rates [OF this] obtain assigned where
    five: "\<forall>ce \<in> set assigned. fst ce \<in> set five" and
    rs: "rates self = add_entries (\<lambda>cq. []) assigned"
    by auto
  have cat: "\<forall>k \<in> set five. rates self k = map snd (filter (\<lambda>(c, e). c = k) assigned)"
    using add_entries_five [OF five, of _ "\<lambda>cq. []"] by (simp add: rs)
  have lof: "rates self Loss_of_function =
             map snd (filter (\<lambda>(c, e). c = Nonsense \<or> c = Splice_lof) assigned)"
    using add_entries_lof [OF five, of "\<lambda>cq. []"] by (simp add: rs)
  have n: "rates self Nonsense = map snd (filter (\<lambda>(c, e). c = Nonsense) assigned)"
    and s: "rates self Splice_lof = map snd (filter (\<lambda>(c, e). c = Splice_lof) assigned)"
    using cat by (simp_all add: five_def)
  have "mset (rates self Loss_of_function) =
             mset (rates self Nonsense) + mset (rates self Splice_lof)"
    unfolding lof n s by (rule mset_filter_lof)
  with five cat lof show ?thesis by blast
qed

theorem loss_of_function_union_witness:
  "\<exists>self. SiteRates ex_gene ex_mut_dict None = Inr self
      \<and> length (rates self Nonsense) = 2 \<and> length (rates self Splice_lof) = 6
      \<and> mset (rates self Loss_of_function) =
          mset (rates self Nonsense) + mset (rates self Splice_lof)"
proof -
  obtain s where s: "SiteRates ex_gene ex_mut_dict None = Inr s"
    and n: "length (rates s Nonsense) = 2" and l: "length (rates s Splice_lof) = 6"
    by (simp add: ex_defs SiteRates_def get_gene_range_def upto.simps)
  from loss_of_function_union [OF s] n l s show ?thesis
    by blast
qed

section \<open>Results and exceptions of analyse\_de\_novos\<close>

lemmas ex_analysis_defs = analyse_de_novos_def py_truediv_def
  convert_de_novos_to_cds_positions_def ex_analyser_def ex_na_analyser_def ex_score_def
  ex_gene_def ex_weights_def ex_world_def log_event_def simulate_distribution_def
  weights_choice_def py_sort_def homogeneous_def simulated_probability_def bisect_right_def
  bind_err_def py_lt_def less_py_value_def format_value_def
  type_differs_from_str_literal_def Let_def bisect_loop.simps sample_positions.simps
  simulate_loop.simps

lemma log_events_Nil [simp]: "log_events [] w = w"
  by (simp add: log_events_def)

lemma log_events_log_event:
  "log_events evs (log_event ev w) = log_events (ev # evs) w"
  by (simp add: log_events_def log_event_def)

lemma convert_loop_all_ok:
  "list_all (convert_ok self) ds \<Longrightarrow>
   convert_loop self acc ds w =
     (Inr (acc @ map (converted self) ds), log_events (map Convert ds) w)"
proof (induction ds arbitrary: acc w)
  case Nil
  then show ?case by simp
next
  case (Cons d ds)
  then show ?case
    by (auto simp: convert_ok_def converted_def log_events_log_event split: sum.splits)
qed


text \<open>
  Claim C5. With fewer than two observed positions \<open>analyse_de_novos\<close> returns the pair
  ("NA", "NA") and leaves the world as it was: no exception, no event in the trace (no
  coordinate conversion, no draw from the sampler, no score), no change of the generator.
\<close>

theorem fewer_than_two_positions:
  assumes "length de_novos < 2"
  shows "analyse_de_novos self de_novos weights iterations w = (Inr (Str ''NA'', Str ''NA''), w)"
  using assms by (simp add: analyse_de_novos_def)

theorem fewer_than_two_positions_witness:
  "analyse_de_novos ex_analyser [] ex_weights 1000000 ex_world
     = (Inr (Str ''NA'', Str ''NA''), ex_world)
 \<and> analyse_de_novos ex_analyser [11] ex_weights 1000000 ex_world
     = (Inr (Str ''NA'', Str ''NA''), ex_world)"
  using fewer_than_two_positions [of "[]" ex_analyser ex_weights 1000000 ex_world]
    fewer_than_two_positions [of "[11]" ex_analyser ex_weights 1000000 ex_world]
  by simp



text \<open>
  Claim C7, the case of a string score. With at least two observed positions that all
  map to CDS coordinates and a scoring function that returns a string for them (such as
  "NA"), \<open>analyse_de_novos\<close> returns an exception and no pair: the test
  \<open>type(observed_value) != "str"\<close> holds for every value, so the string is formatted with
  the code \<open>0.1f\<close>, which raises ValueError (or a comparison of the loop raised
  TypeError before).
\<close>

theorem string_score_raises:
  assumes len: "2 \<le> length de_novos"
    and ok: "list_all (convert_ok self) de_novos"
    and na: "get_score self (map (converted self) de_novos) = Str s"
  shows "\<exists>e w'. analyse_de_novos self de_novos weights iterations w = (Inl e, w')"
proof -
  have conv: "convert_de_novos_to_cds_positions self de_novos w
      = (Inr (map (converted self) de_novos), log_events (map Convert de_novos) w)"
    unfolding convert_de_novos_to_cds_positions_def
    using convert_loop_all_ok [OF ok, of "[]" w] by simp
  have "\<not> length de_novos < 2" using len by simp
  then show ?thesis
    by (auto simp: analyse_de_novos_def conv na format_value_def
        type_differs_from_str_literal_def Let_def split: sum.splits prod.splits)
qed

theorem string_score_raises_witness:
  "\<exists>e w'. analyse_de_novos ex_na_analyser [10, 12] ex_weights 3 ex_world = (Inl e, w')"
proof -
  have len: "2 \<le> length [10, 12 :: int]" by simp
  have ok: "list_all (convert_ok ex_na_analyser) [10, 12]"
    by (simp add: convert_ok_def ex_na_analyser_def ex_gene_def)
  have na: "get_score ex_na_analyser (map (converted ex_na_analyser) [10, 12]) = Str ''NA''"
    by (simp add: ex_na_analyser_def)
  show ?thesis
    by (rule string_score_raises [OF len ok na])
qed

lemma na_score_ValueError:
  "analyse_de_novos ex_na_analyser [10, 12] ex_weights 3 ex_world
   = (Inl ValueError,
      \<lparr>rng = 6, default_dist = [],
       trace = [Convert 10, Convert 12, Score [0, 2],
                Choice, Choice, Score [50, 50], Choice, Choice, Score [50, 50],
                Choice, Choice, Score [50, 50]]\<rparr>)"
  by (simp add: ex_analysis_defs adaptive_loop.simps)

text \<open>
  The case of a numeric score: when the loop returns the p-value \<open>p\<close>, the result is the
  observed value with one decimal, and \<open>p\<close>.
\<close>

lemma number_score_formatted:
  assumes len: "2 \<le> length de_novos"
    and ok: "list_all (convert_ok self) de_novos"
    and num: "get_score self (map (converted self) de_novos) = Num x"
    and it: "1 + iterations \<noteq> 0"
    and loop: "adaptive_loop self weights (int (length de_novos)) (Num x) iterations
        (1 / of_int (1 + iterations)) (1 / of_int (1 + iterations)) []
        (log_event (Score (map (converted self) de_novos)) (log_events (map Convert de_novos) w))
        = (Inr p, w')"
  shows "analyse_de_novos self de_novos weights iterations w
           = (Inr (Str (format_0_1f x), Num p), w')"
proof -
  have conv: "convert_de_novos_to_cds_positions self de_novos w
      = (Inr (map (converted self) de_novos), log_events (map Convert de_novos) w)"
    unfolding convert_de_novos_to_cds_positions_def
    using convert_loop_all_ok [OF ok, of "[]" w] by simp
  have "\<not> length de_novos < 2" using len by simp
  then show ?thesis
    using it loop
    by (simp add: analyse_de_novos_def py_truediv_def conv num format_value_def
        type_differs_from_str_literal_def Let_def)
qed

section \<open>The p-value of a round\<close>

lemma filter_prefix:
  assumes "k \<le> length a" and "\<forall>i<k. P (a ! i)" and "\<forall>i. k \<le> i \<and> i < length a \<longrightarrow> \<not> P (a ! i)"
  shows "length (filter P a) = k"
proof -
  have "filter P (take k a) = take k a"
    using assms(1,2) by (auto simp: filter_id_conv in_set_conv_nth)
  moreover have "filter P (drop k a) = []"
    using assms(3) by (auto simp: filter_empty_conv in_set_conv_nth)
  moreover have "filter P a = filter P (take k a) @ filter P (drop k a)"
    by (metis append_take_drop_id filter_append)
  ultimately show ?thesis using assms(1) by simp
qed

lemma py_lt_same_type: "same_type x y \<Longrightarrow> py_lt x y = Inr (x < y)"
  by (simp add: py_lt_def)

lemma bisect_loop_count:
  "sorted a \<Longrightarrow> list_all (same_type x) a \<Longrightarrow>
   lo \<le> hi \<Longrightarrow> hi \<le> length a \<Longrightarrow> \<forall>i<lo. a ! i \<le> x \<Longrightarrow>
   \<forall>i. hi \<le> i \<and> i < length a \<longrightarrow> x < a ! i \<Longrightarrow>
   bisect_loop a x lo hi = Inr (length (filter (\<lambda>y. y \<le> x) a))"
proof (induction a x lo hi rule: bisect_loop.induct)
  case (1 a x lo hi)
  note srt = "1.prems"(1) and same = "1.prems"(2)
  show ?case
  proof (cases "lo < hi")
    case False
    with "1.prems" have "lo = hi" by simp
    have "length (filter (\<lambda>y. y \<le> x) a) = lo"
      using "1.prems" \<open>lo = hi\<close> by (intro filter_prefix) (auto simp: not_le)
    with False show ?thesis by (subst bisect_loop.simps) simp
  next
    case True
    let ?mid = "(lo + hi) div 2"
    have mid: "lo \<le> ?mid" "?mid < hi" "?mid < length a"
      using True "1.prems" by auto
    have st: "same_type x (a ! ?mid)"
      using same mid(3) by (simp add: list_all_length)
    have lt: "py_lt x (a ! ?mid) = Inr (x < a ! ?mid)"
      by (rule py_lt_same_type [OF st])
    show ?thesis
    proof (cases "x < a ! ?mid")
      case less: True
      have up: "\<forall>i. ?mid \<le> i \<and> i < length a \<longrightarrow> x < a ! i"
      proof (intro allI impI)
        fix i assume i: "?mid \<le> i \<and> i < length a"
        then have "a ! ?mid \<le> a ! i"
          using srt by (simp add: sorted_nth_mono)
        with less show "x < a ! i" by simp
      qed
      have "bisect_loop a x lo ?mid = Inr (length (filter (\<lambda>y. y \<le> x) a))"
        using "1.IH"(1) [OF True lt less srt same] mid "1.prems" up by simp
      then show ?thesis
        using True lt less by (subst bisect_loop.simps) simp
    next
      case ge: False
      have low: "\<forall>i<?mid + 1. a ! i \<le> x"
      proof (intro allI impI)
        fix i assume i: "i < ?mid + 1"
        then have "a ! i \<le> a ! ?mid"
          using srt mid(3) by (simp add: sorted_nth_mono)
        with ge show "a ! i \<le> x" by simp
      qed
      have "bisect_loop a x (?mid + 1) hi = Inr (length (filter (\<lambda>y. y \<le> x) a))"
        using "1.IH"(2) [OF True lt ge srt same] mid "1.prems" low by simp
      then show ?thesis
        using True lt ge by (subst bisect_loop.simps) simp
    qed
  qed
qed

lemma bisect_right_count:
  assumes "sorted a" and "list_all (same_type x) a"
  shows "bisect_right a x = Inr (length (filter (\<lambda>y. y \<le> x) a))"
  unfolding bisect_right_def
  by (rule bisect_loop_count [OF assms]) auto

lemma simulate_distribution_sorted:
  assumes "simulate_distribution self weights dist_arg sample_n max_iter w = (Inr D, w')"
  shows "sorted D"
  using assms
  by (auto simp: simulate_distribution_def py_sort_def Let_def split: prod.splits if_splits)

lemma simulated_probability_count:
  assumes "sorted D" and "list_all (same_type observed_value) D"
  shows "simulated_probability D observed_value =
     Inr (of_nat (1 + length (filter (\<lambda>y. y \<le> observed_value) D)) / of_nat (1 + length D))"
  by (simp add: simulated_probability_def bisect_right_count [OF assms] bind_err_def)

text \<open>
  Claim C3. In a round of the loop (\<open>iterations\<close> below the cap, \<open>sim_prob\<close> equal to
  \<open>minimum_prob\<close>) in which \<open>simulate_distribution\<close> returns the distribution \<open>D\<close>, whose
  values have the type of the observed value: \<open>D\<close> is sorted, \<open>bisect_right\<close> returns the
  number of elements of \<open>D\<close> that are at most the observed value, the p-value of the round
  is (1 + that number) / (1 + length of \<open>D\<close>), and the loop goes on with this p-value.
  For the distribution 1, 2, 3, 4, 5 and the observed value 3 the p-value is
  (1 + 3) / (1 + 5).
\<close>

theorem p_value_of_a_round:
  assumes "iterations < 100000000" and "sim_prob = minimum_prob" and "1 + iterations \<noteq> 0"
    and sim: "simulate_distribution self weights (Some dist') sample_n iterations w = (Inr D, w')"
    and same: "list_all (same_type observed_value) D"
  shows "sorted D
       \<and> bisect_right D observed_value = Inr (length (filter (\<lambda>y. y \<le> observed_value) D))
       \<and> simulated_probability D observed_value =
           Inr (of_nat (1 + length (filter (\<lambda>y. y \<le> observed_value) D)) / of_nat (1 + length D))
       \<and> adaptive_loop self weights sample_n observed_value iterations sim_prob minimum_prob dist' w
           = adaptive_loop self weights sample_n observed_value (iterations + 1000000)
               (of_nat (1 + length (filter (\<lambda>y. y \<le> observed_value) D)) / of_nat (1 + length D))
               (1 / of_int (1 + iterations)) D w'
       \<and> simulated_probability [Num 1, Num 2, Num 3, Num 4, Num 5] (Num 3)
           = Inr ((1 + 3) / (1 + 5))"
proof -
  have srt: "sorted D"
    by (rule simulate_distribution_sorted [OF sim])
  have rank: "bisect_right D observed_value = Inr (length (filter (\<lambda>y. y \<le> observed_value) D))"
    by (rule bisect_right_count [OF srt same])
  have p: "simulated_probability D observed_value =
      Inr (of_nat (1 + length (filter (\<lambda>y. y \<le> observed_value) D)) / of_nat (1 + length D))"
    by (rule simulated_probability_count [OF srt same])
  have loop: "adaptive_loop self weights sample_n observed_value iterations sim_prob minimum_prob dist' w
           = adaptive_loop self weights sample_n observed_value (iterations + 1000000)
               (of_nat (1 + length (filter (\<lambda>y. y \<le> observed_value) D)) / of_nat (1 + length D))
               (1 / of_int (1 + iterations)) D w'"
    using assms(1-3) by (subst adaptive_loop.simps) (simp add: py_truediv_def sim p)
  have "sorted [Num 1, Num 2, Num 3, Num 4, Num 5]"
    by simp
  moreover have "list_all (same_type (Num 3)) [Num 1, Num 2, Num 3, Num 4, Num 5]"
    by simp
  ultimately have ex: "simulated_probability [Num 1, Num 2, Num 3, Num 4, Num 5] (Num 3)
           = Inr ((1 + 3) / (1 + 5))"
    by (simp add: simulated_probability_count)
  from srt rank p loop ex show ?thesis by blast
qed

theorem p_value_of_a_round_witness:
  "simulate_distribution ex_analyser ex_weights (Some []) 2 3 ex_world
     = (Inr [Num 100, Num 100, Num 100],
        \<lparr>rng = 6, default_dist = [],
         trace = [Choice, Choice, Score [50, 50], Choice, Choice, Score [50, 50],
                  Choice, Choice, Score [50, 50]]\<rparr>)
 \<and> simulated_probability [Num 100, Num 100, Num 100] (Num 100) = Inr ((1 + 3) / (1 + 3))
 \<and> simulated_probability [Num 100, Num 100, Num 100] (Num 2) = Inr ((1 + 0) / (1 + 3))"
proof -
  let ?w = "\<lparr>rng = 6 :: nat, default_dist = [],
         trace = [Choice, Choice, Score [50, 50], Choice, Choice, Score [50, 50],
                  Choice, Choice, Score [50, 50]]\<rparr>"
  have sim: "simulate_distribution ex_analyser ex_weights (Some []) 2 3 ex_world
     = (Inr [Num 100, Num 100, Num 100], ?w)"
    by (simp add: ex_analysis_defs)
  have h1: "(3 :: int) < 100000000" and h2: "(1 :: rat) / 4 = 1 / 4" and h3: "1 + (3 :: int) \<noteq> 0"
    by simp_all
  have s1: "list_all (same_type (Num 100)) [Num 100, Num 100, Num 100]"
    and s2: "list_all (same_type (Num 2)) [Num 100, Num 100, Num 100]"
    by simp_all
  from p_value_of_a_round [OF h1 h2 h3 sim s1] p_value_of_a_round [OF h1 h2 h3 sim s2] sim
  show ?thesis by simp
qed

section \<open>The default list of simulate\_distribution\<close>

lemma same_type_sym: "same_type x y \<Longrightarrow> same_type y x"
  by (cases x; cases y) simp_all

lemma same_type_trans: "same_type x y \<Longrightarrow> same_type y z \<Longrightarrow> same_type x z"
  by (cases x; cases y; cases z) simp_all

lemma homogeneous_set:
  "homogeneous xs \<longleftrightarrow> (\<forall>x \<in> set xs. \<forall>y \<in> set xs. same_type x y)"
proof (cases xs)
  case Nil
  then show ?thesis by (simp add: homogeneous_def)
next
  case (Cons a rest)
  have refl: "same_type a a" by (cases a) simp_all
  show ?thesis
  proof
    assume "homogeneous xs"
    then have all: "\<forall>y \<in> set xs. same_type a y"
      using refl by (auto simp: homogeneous_def Cons list_all_iff)
    show "\<forall>x \<in> set xs. \<forall>y \<in> set xs. same_type x y"
      using all by (blast intro: same_type_sym same_type_trans)
  next
    assume "\<forall>x \<in> set xs. \<forall>y \<in> set xs. same_type x y"
    then show "homogeneous xs"
      by (simp add: homogeneous_def Cons list_all_iff)
  qed
qed

lemma homogeneous_sort: "homogeneous (sort xs) = homogeneous xs"
  by (simp add: homogeneous_set)

lemma py_sort_sorted: "sorted xs \<Longrightarrow> homogeneous xs \<Longrightarrow> py_sort xs = Inr xs"
  by (simp add: py_sort_def sort_key_id_if_sorted)

lemma simulate_loop_done:
  "\<not> iteration < max_iter \<Longrightarrow>
   simulate_loop self weights sample_n max_iter iteration d w = (d, w)"
  by (subst simulate_loop.simps) simp

lemma simulate_loop_length:
  "iteration = int (length d) \<Longrightarrow>
   simulate_loop self weights sample_n max_iter iteration d w = (d', w') \<Longrightarrow>
   int (length d') = max (int (length d)) max_iter"
proof (induction self weights sample_n max_iter iteration d w rule: simulate_loop.induct)
  case (1 self weights sample_n max_iter iteration d w)
  show ?case
  proof (cases "iteration < max_iter")
    case False
    with "1.prems" show ?thesis by (simp add: simulate_loop_done)
  next
    case True
    obtain positions w1 where sp: "sample_positions weights sample_n [] w = (positions, w1)"
      by (cases "sample_positions weights sample_n [] w")
    have next_call: "simulate_loop self weights sample_n max_iter (iteration + 1)
        (d @ [get_score self positions]) (log_event (Score positions) w1) = (d', w')"
      using "1.prems"(2) True sp by (subst (asm) simulate_loop.simps) simp
    have "int (length d') = max (int (length (d @ [get_score self positions]))) max_iter"
      using "1.IH" [OF True sp [symmetric] _ next_call] "1.prems"(1) by simp
    then show ?thesis using True "1.prems"(1) by simp
  qed
qed

text \<open>
  Claim C6, for \<open>simulate_distribution\<close> called without \<open>dist\<close>. After a first call that
  returns the distribution \<open>d\<close>, the default list of the parameter is \<open>d\<close>, and a second
  call without \<open>dist\<close> (for any analyser, sampler and sample size, with the same
  \<open>max_iter\<close>) starts from \<open>d\<close>, simulates nothing (the world, with its trace and its
  generator, stays as it is) and returns the values of the first call.
\<close>

theorem default_dist_is_shared:
  assumes first: "simulate_distribution self weights None sample_n max_iter w = (Inr d, w1)"
  shows "default_dist w1 = d
       \<and> max_iter \<le> int (length d)
       \<and> simulate_distribution self' weights' None sample_n' max_iter w1 = (Inr d, w1)"
proof -
  obtain d0 w0 where loop: "simulate_loop self weights sample_n max_iter
      (int (length (default_dist w))) (default_dist w) w = (d0, w0)"
    by (cases "simulate_loop self weights sample_n max_iter
      (int (length (default_dist w))) (default_dist w) w")
  from first loop have hom: "homogeneous d0" and d: "d = sort d0"
    and w1: "w1 = w0\<lparr>default_dist := d\<rparr>"
    by (auto simp: simulate_distribution_def py_sort_def Let_def split: if_splits)
  have len: "max_iter \<le> int (length d)"
    using simulate_loop_length [OF refl loop] by (simp add: d)
  have dd: "default_dist w1 = d" by (simp add: w1)
  have stay: "simulate_loop self' weights' sample_n' max_iter (int (length d)) d w1 = (d, w1)"
    using len by (intro simulate_loop_done) simp
  have sorted: "py_sort d = Inr d"
    by (rule py_sort_sorted) (simp_all add: d homogeneous_sort hom)
  have "simulate_distribution self' weights' None sample_n' max_iter w1 = (Inr d, w1)"
    by (simp add: simulate_distribution_def dd stay sorted)
  with dd len show ?thesis by simp
qed

theorem default_dist_is_shared_witness:
  "simulate_distribution ex_analyser ex_weights None 2 3 ex_world
     = (Inr [Num 100, Num 100, Num 100],
        \<lparr>rng = 6, default_dist = [Num 100, Num 100, Num 100],
         trace = [Choice, Choice, Score [50, 50], Choice, Choice, Score [50, 50],
                  Choice, Choice, Score [50, 50]]\<rparr>)
 \<and> simulate_distribution ex_analyser ex_weights None 2 3
      \<lparr>rng = 6, default_dist = [Num 100, Num 100, Num 100],
         trace = [Choice, Choice, Score [50, 50], Choice, Choice, Score [50, 50],
                  Choice, Choice, Score [50, 50]]\<rparr>
     = (Inr [Num 100, Num 100, Num 100],
        \<lparr>rng = 6, default_dist = [Num 100, Num 100, Num 100],
         trace = [Choice, Choice, Score [50, 50], Choice, Choice, Score [50, 50],
                  Choice, Choice, Score [50, 50]]\<rparr>)"
proof -
  have first: "simulate_distribution ex_analyser ex_weights None 2 3 ex_world
     = (Inr [Num 100, Num 100, Num 100],
        \<lparr>rng = 6, default_dist = [Num 100, Num 100, Num 100],
         trace = [Choice, Choice, Score [50, 50], Choice, Choice, Score [50, 50],
                  Choice, Choice, Score [50, 50]]\<rparr>)"
    by (simp add: ex_analysis_defs)
  from default_dist_is_shared [OF first, of ex_analyser ex_weights 2] first
  show ?thesis by simp
qed

text \<open>
  \<open>analyse_de_novos\<close> passes its own list to \<open>simulate_distribution\<close>: neither its result
  nor its events depend on the default list, which it leaves as it is.
\<close>

lemma weights_choice_frame:
  "weights_choice weights (with_default x w)
     = (fst (weights_choice weights w), with_default x (snd (weights_choice weights w)))"
  by (simp add: weights_choice_def with_default_def log_event_def split: prod.splits)

lemma log_event_frame: "log_event ev (with_default x w) = with_default x (log_event ev w)"
  by (simp add: with_default_def log_event_def)

lemma log_events_frame: "log_events evs (with_default x w) = with_default x (log_events evs w)"
  by (simp add: with_default_def log_events_def)

lemma sample_positions_frame:
  "sample_positions weights sample_n ps (with_default x w)
     = (fst (sample_positions weights sample_n ps w),
        with_default x (snd (sample_positions weights sample_n ps w)))"
proof (induction weights sample_n ps w rule: sample_positions.induct)
  case (1 weights sample_n positions w)
  show ?case
  proof (cases "int (length positions) < sample_n")
    case False
    then show ?thesis
      by (subst sample_positions.simps, subst (2 3) sample_positions.simps) simp
  next
    case True
    show ?thesis
      using True "1.IH" [OF True]
      by (subst sample_positions.simps, subst (2 3) sample_positions.simps)
        (simp add: weights_choice_frame)
  qed
qed

lemma simulate_loop_frame:
  "simulate_loop self weights sample_n max_iter iteration d (with_default x w)
     = (fst (simulate_loop self weights sample_n max_iter iteration d w),
        with_default x (snd (simulate_loop self weights sample_n max_iter iteration d w)))"
proof (induction self weights sample_n max_iter iteration d w rule: simulate_loop.induct)
  case (1 self weights sample_n max_iter iteration d w)
  show ?case
  proof (cases "iteration < max_iter")
    case False
    then show ?thesis
      by (subst simulate_loop.simps, subst (2 3) simulate_loop.simps) simp
  next
    case True
    obtain positions w1 where sp: "sample_positions weights sample_n [] w = (positions, w1)"
      by (cases "sample_positions weights sample_n [] w")
    have spf: "sample_positions weights sample_n [] (with_default x w)
        = (positions, with_default x w1)"
      by (simp add: sample_positions_frame sp)
    show ?thesis
      using True "1.IH" [OF True sp [symmetric]]
      by (subst simulate_loop.simps, subst (2 3) simulate_loop.simps)
        (simp add: sp spf log_event_frame)
  qed
qed

lemma simulate_distribution_frame:
  "simulate_distribution self weights (Some d) sample_n max_iter (with_default x w)
     = (fst (simulate_distribution self weights (Some d) sample_n max_iter w),
        with_default x (snd (simulate_distribution self weights (Some d) sample_n max_iter w)))"
  by (simp add: simulate_distribution_def simulate_loop_frame split: prod.splits sum.splits)

lemma adaptive_loop_frame:
  "adaptive_loop self weights sample_n observed_value iterations sim_prob minimum_prob d
      (with_default x w)
     = (fst (adaptive_loop self weights sample_n observed_value iterations sim_prob minimum_prob d w),
        with_default x
          (snd (adaptive_loop self weights sample_n observed_value iterations sim_prob minimum_prob d w)))"
proof (induction self weights sample_n observed_value iterations sim_prob minimum_prob d w
    rule: adaptive_loop.induct)
  case (1 self weights sample_n observed_value iterations sim_prob minimum_prob d w)
  show ?case
  proof (cases "iterations < 100000000 \<and> sim_prob = minimum_prob")
    case False
    then show ?thesis
      by (subst adaptive_loop.simps, subst (2 3) adaptive_loop.simps) auto
  next
    case True
    show ?thesis
    proof (cases "py_truediv 1 (1 + iterations)")
      case (Inl e)
      then show ?thesis
        using True by (subst adaptive_loop.simps, subst (2 3) adaptive_loop.simps) simp
    next
      case (Inr mp)
      obtain r w1 where sim:
        "simulate_distribution self weights (Some d) sample_n iterations w = (r, w1)"
        by (cases "simulate_distribution self weights (Some d) sample_n iterations w")
      have simf: "simulate_distribution self weights (Some d) sample_n iterations (with_default x w)
          = (r, with_default x w1)"
        by (simp add: simulate_distribution_frame sim)
      show ?thesis
      proof (cases r)
        case (Inl e)
        then show ?thesis
          using True Inr sim simf
          by (subst adaptive_loop.simps, subst (2 3) adaptive_loop.simps) simp
      next
        case d': (Inr d')
        show ?thesis
        proof (cases "simulated_probability d' observed_value")
          case (Inl e)
          then show ?thesis
            using True Inr sim simf d'
            by (subst adaptive_loop.simps, subst (2 3) adaptive_loop.simps) simp
        next
          case p: (Inr p)
          have "adaptive_loop self weights sample_n observed_value (iterations + 1000000) p mp d'
              (with_default x w1)
            = (fst (adaptive_loop self weights sample_n observed_value (iterations + 1000000) p mp d' w1),
               with_default x
                 (snd (adaptive_loop self weights sample_n observed_value (iterations + 1000000) p mp d' w1)))"
            using "1.IH" [OF True Inr sim [symmetric] d' p] by simp
          then show ?thesis
            using True Inr sim simf d' p
            by (subst adaptive_loop.simps, subst (2 3) adaptive_loop.simps) simp
        qed
      qed
    qed
  qed
qed

lemma convert_loop_frame:
  "convert_loop self acc ds (with_default x w)
     = (fst (convert_loop self acc ds w), with_default x (snd (convert_loop self acc ds w)))"
  by (induction ds arbitrary: acc w) (simp_all add: log_event_frame split: sum.splits)

lemma analyse_de_novos_fresh:
  "analyse_de_novos self de_novos weights iterations (with_default x w)
     = (fst (analyse_de_novos self de_novos weights iterations w),
        with_default x (snd (analyse_de_novos self de_novos weights iterations w)))"
  by (simp add: analyse_de_novos_def convert_de_novos_to_cds_positions_def convert_loop_frame
      adaptive_loop_frame log_event_frame Let_def split: prod.splits sum.splits)

section \<open>The adaptive loop at the floor\<close>





















section \<open>The geometric mean\<close>










end
